theory Spec2Isabelle
  imports Complex_Main "HOL-Library.Char_ord" "HOL-Library.List_Lexorder"
begin

section \<open>The feedback server (\<^verbatim>\<open>server.js\<close>)\<close>

text \<open>
  The server is one Express application over one SQLite database with two tables,
  \<^verbatim>\<open>users\<close> and \<^verbatim>\<open>feedback\<close>. Every route handler is embedded as a function from the
  state of the database and the request to the reply and the new state of the database.
  The route \<^verbatim>\<open>GET /api/feedback-count-by-type\<close>, the twin of the sentiment summary on
  another column, is left out.

  What lies outside the file is a parameter of the handler that calls it:
  \<^item> \<^verbatim>\<open>bcrypt.hash\<close> and \<^verbatim>\<open>bcrypt.compare\<close> (the hash draws a random salt);
  \<^item> \<^verbatim>\<open>vader.SentimentIntensityAnalyzer.polarity_scores\<close>, of which only the field
    \<^verbatim>\<open>compound\<close> is read;
  \<^item> the clock behind \<^verbatim>\<open>CURRENT_TIMESTAMP\<close>;
  \<^item> a failure of the storage engine that does not depend on the data (I/O, a locked
    file), which the callbacks receive as \<^verbatim>\<open>err\<close>;
  \<^item> the storage engine's conversion of a text to a number, where it rounds.

  Request bodies are taken well typed: a textual field is a string or is missing
  (\<^verbatim>\<open>undefined\<close> and \<^verbatim>\<open>null\<close> behave alike in every test the handlers make), and
  \<^verbatim>\<open>user_id\<close> is an integer numeral or is missing. Strings are lists of 8-bit code units.
  Scores are real numbers: the handlers only compare them with \<^verbatim>\<open>0.3\<close> and \<^verbatim>\<open>-0.3\<close>
  and SQLite averages them, and the binary rounding of the average is not part of the
  model.
\<close>

subsection \<open>JavaScript truthiness of the request fields\<close>

text \<open>\<^verbatim>\<open>!x\<close> holds for \<^verbatim>\<open>undefined\<close>, \<^verbatim>\<open>null\<close>, the empty string and the number 0.\<close>

fun truthy_str :: "string option \<Rightarrow> bool" where
  "truthy_str None = False"
| "truthy_str (Some s) = (s \<noteq> [])"

text \<open>
  For the integer numeral of a body this comes to: present and not 0 (\<open>truthy_num_json\<close>
  below relates it to the test the handler makes on the parsed number).
\<close>

fun truthy_int :: "int option \<Rightarrow> bool" where
  "truthy_int None = False"
| "truthy_int (Some n) = (n \<noteq> 0)"

text \<open>\<^verbatim>\<open>x || ''\<close> on a textual field.\<close>

fun or_empty :: "string option \<Rightarrow> string" where
  "or_empty None = []"
| "or_empty (Some s) = s"

subsection \<open>Numbers\<close>

text \<open>
  A number of JavaScript, and a \<^verbatim>\<open>REAL\<close> of SQLite, is a double. Of a double only its
  value matters here: a rational or one of the two infinities (no operation of the file
  yields \<^verbatim>\<open>NaN\<close> from a numeral).
\<close>

datatype double = Finite rat | PosInf | NegInf

text \<open>
  Line 11, \<^verbatim>\<open>express.json()\<close>: an integer numeral of the body becomes the nearest double,
  a tie going to the even significand of 53 bits, and infinity from \<open>2 ^ 1024\<close> on.
\<close>

function bit_length :: "int \<Rightarrow> nat" where
  "bit_length n = (if n \<le> 0 then 0 else Suc (bit_length (n div 2)))"
  by pat_completeness auto
termination
  by (relation "measure nat") auto

declare bit_length.simps [simp del]

text \<open>The rounding of a magnitude \<open>a\<close>: \<open>k\<close> bits are dropped when \<open>a\<close> has \<open>53 + k\<close> bits.\<close>

definition round_to_double :: "int \<Rightarrow> int" where
  "round_to_double a =
     (let k = bit_length a - 53; q = a div 2 ^ k; r = a mod 2 ^ k
      in (if 2 * r > 2 ^ k \<or> (2 * r = 2 ^ k \<and> odd q) then q + 1 else q) * 2 ^ k)"

definition json_integer :: "int \<Rightarrow> double" where
  "json_integer n =
     (let m = round_to_double \<bar>n\<bar>
      in if 2 ^ 1024 \<le> m then (if n < 0 then NegInf else PosInf)
         else Finite (of_int (if n < 0 then - m else m)))"

text \<open>\<^verbatim>\<open>!x\<close> on a number holds for 0, and \<^verbatim>\<open>x || null\<close> replaces 0 by \<^verbatim>\<open>null\<close>.\<close>

fun truthy_num :: "double option \<Rightarrow> bool" where
  "truthy_num None = False"
| "truthy_num (Some d) = (d \<noteq> Finite 0)"

fun or_null :: "double option \<Rightarrow> double option" where
  "or_null None = None"
| "or_null (Some d) = (if d = Finite 0 then None else Some d)"

subsection \<open>The database\<close>

text \<open>
  A row of \<^verbatim>\<open>users\<close>: both text columns are \<^verbatim>\<open>NOT NULL\<close>. A row of \<^verbatim>\<open>feedback\<close>
  has the types of what the only \<^verbatim>\<open>INSERT\<close> of the file binds: \<^verbatim>\<open>user_id\<close> is the
  number bound, kept by its value (SQLite stores it as an integer when it is one of 64
  bits and as a \<^verbatim>\<open>REAL\<close> otherwise), or \<^verbatim>\<open>NULL\<close>; \<^verbatim>\<open>username\<close> and
  \<^verbatim>\<open>feedback_type\<close> are nullable columns; the others always receive a value. \<^verbatim>\<open>created_at\<close> is the number of seconds since the epoch (UTC), the
  value of \<^verbatim>\<open>CURRENT_TIMESTAMP\<close> at the insertion.
\<close>

record user_row =
  u_id :: int
  u_username :: string
  u_password :: string

record feedback_row =
  f_id :: int
  f_user_id :: "double option"
  f_username :: "string option"
  f_role :: string
  f_feedback_type :: "string option"
  f_feedback_text :: string
  f_sentiment_label :: string
  f_sentiment_score :: real
  f_created_at :: nat

text \<open>
  Both tables are \<^verbatim>\<open>INTEGER PRIMARY KEY AUTOINCREMENT\<close>: SQLite keeps, in
  \<^verbatim>\<open>sqlite_sequence\<close>, the largest rowid the table has ever held, and a new row receives
  one more than the larger of that and the largest rowid present. The 64-bit limit of
  rowids is not modelled.
\<close>

record db =
  users :: "user_row list"
  users_seq :: int
  feedback :: "feedback_row list"
  feedback_seq :: int

definition next_rowid :: "int \<Rightarrow> int list \<Rightarrow> int" where
  "next_rowid seq ids = foldr max ids (max seq 0) + 1"

datatype store_error = Constraint | Unavailable

text \<open>A statement fails with \<open>Unavailable\<close> when the engine itself fails.\<close>

type_synonym fault = bool

text \<open>\<^verbatim>\<open>INSERT INTO users (username, password) VALUES (?, ?)\<close>, under \<^verbatim>\<open>username UNIQUE\<close>.\<close>

definition insert_user :: "fault \<Rightarrow> db \<Rightarrow> string \<Rightarrow> string \<Rightarrow> store_error + db" where
  "insert_user flt st username hash =
     (if flt then Inl Unavailable
      else if username \<in> set (map u_username (users st)) then Inl Constraint
      else let i = next_rowid (users_seq st) (map u_id (users st))
           in Inr (st\<lparr>users := users st @ [\<lparr>u_id = i, u_username = username, u_password = hash\<rparr>],
                      users_seq := i\<rparr>))"

text \<open>
  \<^verbatim>\<open>db.get\<close> of \<^verbatim>\<open>SELECT ... FROM users WHERE username = ?\<close>: the first row found, or
  \<^verbatim>\<open>undefined\<close>. The comparison is that of the \<^verbatim>\<open>BINARY\<close> collation: equality of strings.
\<close>

definition get_user :: "fault \<Rightarrow> db \<Rightarrow> string \<Rightarrow> store_error + user_row option" where
  "get_user flt st username =
     (if flt then Inl Unavailable
      else Inr (find (\<lambda>r. u_username r = username) (users st)))"

subsection \<open>Replies\<close>

datatype body =
    Error string                      \<comment> \<open>\<^verbatim>\<open>{ error: ... }\<close>\<close>
  | Success                           \<comment> \<open>\<^verbatim>\<open>{ success: true }\<close>\<close>
  | SuccessUser int                   \<comment> \<open>\<^verbatim>\<open>{ success: true, userId: ... }\<close>\<close>
  | Outcome bool string               \<comment> \<open>\<^verbatim>\<open>{ success: ..., message: ... }\<close>\<close>
  | Rows "feedback_row list"
  | Counts "(string \<times> nat) list"      \<comment> \<open>rows \<^verbatim>\<open>{ sentiment_label, count }\<close>\<close>
  | Averages "(nat \<times> real) list"      \<comment> \<open>rows \<^verbatim>\<open>{ date, avg_score }\<close>\<close>

text \<open>
  A handler answers with a status and a JSON body (\<^verbatim>\<open>res.json\<close> alone is status 200),
  or throws inside a callback, which no handler of the file catches.
\<close>

datatype reply = Reply nat body | Uncaught

subsection \<open>Credential store: \<^verbatim>\<open>POST /api/register\<close> and \<^verbatim>\<open>POST /api/login\<close>\<close>

text \<open>
  \<open>hash\<close> is \<^verbatim>\<open>bcrypt.hash(password, saltRounds, ...)\<close> of this call, \<open>None\<close> when its
  callback receives an error; \<open>compare\<close> is \<^verbatim>\<open>bcrypt.compare\<close>, likewise.
\<close>

record credentials =
  c_username :: "string option"
  c_password :: "string option"

definition register ::
  "(string \<Rightarrow> string option) \<Rightarrow> fault \<Rightarrow> fault \<Rightarrow> db \<Rightarrow> credentials \<Rightarrow> reply \<times> db" where
  "register hash flt_run flt_get st req =
     (if \<not> truthy_str (c_username req) \<or> \<not> truthy_str (c_password req)
      then (Reply 400 (Error ''Username and password required''), st)
      else
        let username = or_empty (c_username req); password = or_empty (c_password req) in
        case hash password of
          None \<Rightarrow> (Reply 500 (Error ''Server error''), st)
        | Some h \<Rightarrow>
            (case insert_user flt_run st username h of
               Inl e \<Rightarrow> (Reply 400 (Error ''User already exists or DB error''), st)
             | Inr st' \<Rightarrow>
                 (case get_user flt_get st' username of
                    Inl e \<Rightarrow> (Reply 500 (Error ''Failed to fetch user ID after register.''), st')
                  | Inr None \<Rightarrow> (Uncaught, st')
                  | Inr (Some row) \<Rightarrow> (Reply 200 (SuccessUser (u_id row)), st'))))"

definition login ::
  "(string \<Rightarrow> string \<Rightarrow> bool option) \<Rightarrow> fault \<Rightarrow> db \<Rightarrow> credentials \<Rightarrow> reply \<times> db" where
  "login compare flt st req =
     (if \<not> truthy_str (c_username req) \<or> \<not> truthy_str (c_password req)
      then (Reply 400 (Error ''Username and password required''), st)
      else
        let username = or_empty (c_username req); password = or_empty (c_password req) in
        case get_user flt st username of
          Inl e \<Rightarrow> (Reply 400 (Error ''Invalid username or password''), st)
        | Inr None \<Rightarrow> (Reply 400 (Error ''Invalid username or password''), st)
        | Inr (Some row) \<Rightarrow>
            (case compare password (u_password row) of
               Some True \<Rightarrow> (Reply 200 (SuccessUser (u_id row)), st)
             | _ \<Rightarrow> (Reply 400 (Error ''Invalid username or password''), st)))"

subsection \<open>Sentiment classification and \<^verbatim>\<open>POST /api/feedback\<close>\<close>

record feedback_req =
  q_user_id :: "int option"
  q_username :: "string option"
  q_role :: "string option"
  q_feedback_type :: "string option"
  q_feedback_text :: "string option"

text \<open>
  Lines 84 to 88 of the handler: \<open>polarity_scores\<close> stands for the field \<^verbatim>\<open>compound\<close> of
  what the analyser returns.
\<close>

definition classify :: "(string \<Rightarrow> real) \<Rightarrow> string \<Rightarrow> string \<times> real" where
  "classify polarity_scores feedback_text =
     (let compound = polarity_scores feedback_text;
          sentiment_label =
            (if compound > 0.3 then ''positive''
             else if compound < - 0.3 then ''negative''
             else ''neutral'')
      in (sentiment_label, compound))"

text \<open>
  The \<^verbatim>\<open>INSERT\<close> into \<^verbatim>\<open>feedback\<close>. The table's \<^verbatim>\<open>CHECK\<close> rejects a role outside the
  three names. The foreign key on \<^verbatim>\<open>user_id\<close> is declared, but the file never turns
  \<^verbatim>\<open>PRAGMA foreign_keys\<close> on, so SQLite does not enforce it. \<^verbatim>\<open>created_at\<close> takes its
  default, the clock.
\<close>

definition insert_feedback ::
  "fault \<Rightarrow> nat \<Rightarrow> db \<Rightarrow> double option \<Rightarrow> string \<Rightarrow> string \<Rightarrow> string \<Rightarrow> string \<Rightarrow> string \<Rightarrow> real
     \<Rightarrow> store_error + db" where
  "insert_feedback flt now st uid uname role ftype ftext lab score =
     (if flt then Inl Unavailable
      else if role \<notin> set [''guest'', ''user'', ''admin''] then Inl Constraint
      else let i = next_rowid (feedback_seq st) (map f_id (feedback st))
           in Inr (st\<lparr>feedback := feedback st @
                        [\<lparr>f_id = i, f_user_id = uid, f_username = Some uname, f_role = role,
                          f_feedback_type = Some ftype, f_feedback_text = ftext,
                          f_sentiment_label = lab, f_sentiment_score = score,
                          f_created_at = now\<rparr>],
                      feedback_seq := i\<rparr>))"

definition post_feedback ::
  "(string \<Rightarrow> real) \<Rightarrow> nat \<Rightarrow> fault \<Rightarrow> db \<Rightarrow> feedback_req \<Rightarrow> reply \<times> db" where
  "post_feedback polarity_scores now flt st req =
     (let user_id = map_option json_integer (q_user_id req) in
      if \<not> truthy_str (q_feedback_text req) \<or> \<not> truthy_str (q_role req)
         \<or> (\<not> truthy_str (q_username req) \<and> \<not> truthy_num user_id)
      then (Reply 400 (Error ''Missing feedback fields''), st)
      else
        let feedback_text = or_empty (q_feedback_text req);
            (sentiment_label, sentiment_score) = classify polarity_scores feedback_text
        in case insert_feedback flt now st (or_null user_id) (or_empty (q_username req))
                  (or_empty (q_role req)) (or_empty (q_feedback_type req)) feedback_text
                  sentiment_label sentiment_score of
             Inl e \<Rightarrow> (Reply 500 (Error ''Failed to save feedback''), st)
           | Inr st' \<Rightarrow> (Reply 200 Success, st'))"

subsection \<open>Text bound to an integer column\<close>

text \<open>
  The route parameters \<^verbatim>\<open>:userId\<close> and \<^verbatim>\<open>:id\<close> are strings and are bound as text. In
  \<^verbatim>\<open>user_id = ?\<close> and \<^verbatim>\<open>id = ?\<close> the column has integer affinity, so SQLite first
  converts the text to a number when the whole text is a decimal literal (blanks around
  it, a sign, digits with an optional fraction, an optional exponent) and then compares
  numbers by value; text that is no such literal equals no number. \<open>sqlite_is_numeric\<close>
  follows the engine's scanner.
\<close>

definition sqlite_isspace :: "char \<Rightarrow> bool" where
  "sqlite_isspace c = (c \<in> set [CHR '' '', CHR 0x09, CHR 0x0A, CHR 0x0B, CHR 0x0C, CHR 0x0D])"

definition is_digit :: "char \<Rightarrow> bool" where
  "is_digit c = (c \<in> set ''0123456789'')"

definition digit_val :: "char \<Rightarrow> int" where
  "digit_val c = of_char c - 48"

definition digits_val :: "string \<Rightarrow> int" where
  "digits_val ds = foldl (\<lambda>a c. 10 * a + digit_val c) 0 ds"

fun take_sign :: "string \<Rightarrow> bool \<times> string" where
  "take_sign (c # cs) =
     (if c = CHR ''-'' then (True, cs) else if c = CHR ''+'' then (False, cs) else (False, c # cs))"
| "take_sign [] = (False, [])"

fun take_fraction :: "string \<Rightarrow> string \<times> string" where
  "take_fraction (c # cs) =
     (if c = CHR ''.'' then (takeWhile is_digit cs, dropWhile is_digit cs) else ([], c # cs))"
| "take_fraction [] = ([], [])"

text \<open>The exponent part: \<open>False\<close> when an \<^verbatim>\<open>e\<close> is followed by no digit.\<close>

fun take_exponent :: "string \<Rightarrow> bool \<times> string" where
  "take_exponent (c # cs) =
     (if c = CHR ''e'' \<or> c = CHR ''E'' then
        (let (neg, r) = take_sign cs
         in (takeWhile is_digit r \<noteq> [], dropWhile is_digit r))
      else (True, c # cs))"
| "take_exponent [] = (True, [])"

definition sqlite_is_numeric :: "string \<Rightarrow> bool" where
  "sqlite_is_numeric z =
     (let z1 = dropWhile sqlite_isspace z;
          (neg, z2) = take_sign z1;
          ip = takeWhile is_digit z2;
          (fp, z4) = take_fraction (dropWhile is_digit z2);
          (ok, z5) = take_exponent z4
      in z1 \<noteq> [] \<and> ok \<and> dropWhile sqlite_isspace z5 = [] \<and> ip @ fp \<noteq> [])"

text \<open>
  A literal without fraction and exponent whose digits stay below \<open>2 ^ 53\<close> denotes its
  integer, however the engine converts: every step of the conversion is exact there.
\<close>

definition sqlite_small_integer :: "string \<Rightarrow> int option" where
  "sqlite_small_integer z =
     (let (neg, z2) = take_sign (dropWhile sqlite_isspace z);
          ip = takeWhile is_digit z2
      in if ip \<noteq> [] \<and> dropWhile sqlite_isspace (dropWhile is_digit z2) = []
            \<and> digits_val ip < 2 ^ 53
         then Some (if neg then - digits_val ip else digits_val ip)
         else None)"

text \<open>
  For every other literal (a fraction, an exponent, or digits from \<open>2 ^ 53\<close> on) the value
  is the engine's, with its own rounding of the digits to a double or to an integer of 64
  bits: \<open>text_value\<close> stands for that conversion.
\<close>

definition sqlite_numeric :: "(string \<Rightarrow> double) \<Rightarrow> string \<Rightarrow> double option" where
  "sqlite_numeric text_value z =
     (if \<not> sqlite_is_numeric z then None
      else case sqlite_small_integer z of
             Some n \<Rightarrow> Some (Finite (of_int n))
           | None \<Rightarrow> Some (text_value z))"

definition sql_int_eq_text :: "(string \<Rightarrow> double) \<Rightarrow> int \<Rightarrow> string \<Rightarrow> bool" where
  "sql_int_eq_text text_value n txt = (sqlite_numeric text_value txt = Some (Finite (of_int n)))"

subsection \<open>Listings: \<^verbatim>\<open>GET /api/all-feedback\<close> and \<^verbatim>\<open>GET /api/feedback/user/:userId\<close>\<close>

text \<open>
  \<^verbatim>\<open>ORDER BY created_at DESC\<close>. SQL leaves the order of rows with equal \<^verbatim>\<open>created_at\<close>
  open; the model keeps them in table order.
\<close>

definition order_by_created_at_desc :: "feedback_row list \<Rightarrow> feedback_row list" where
  "order_by_created_at_desc rows = sort_key (\<lambda>r. - int (f_created_at r)) rows"

definition all_feedback :: "fault \<Rightarrow> db \<Rightarrow> reply" where
  "all_feedback flt st =
     (if flt then Reply 500 (Error ''DB error fetching feedbacks'')
      else Reply 200 (Rows (order_by_created_at_desc (feedback st))))"

text \<open>\<^verbatim>\<open>WHERE user_id = ?\<close>: a row whose \<^verbatim>\<open>user_id\<close> is \<^verbatim>\<open>NULL\<close> is never selected.\<close>

definition user_id_matches :: "(string \<Rightarrow> double) \<Rightarrow> string \<Rightarrow> feedback_row \<Rightarrow> bool" where
  "user_id_matches text_value userId r =
     (case f_user_id r of None \<Rightarrow> False | Some d \<Rightarrow> sqlite_numeric text_value userId = Some d)"

definition user_feedback :: "(string \<Rightarrow> double) \<Rightarrow> fault \<Rightarrow> db \<Rightarrow> string \<Rightarrow> reply" where
  "user_feedback text_value flt st userId =
     (if flt then Reply 500 (Error ''DB error fetching user feedback'')
      else Reply 200 (Rows (order_by_created_at_desc
                              (filter (user_id_matches text_value userId) (feedback st)))))"

subsection \<open>\<^verbatim>\<open>DELETE /api/delete-feedback/:id\<close>\<close>

text \<open>
  \<^verbatim>\<open>isNaN(feedbackId)\<close> on a string: \<^verbatim>\<open>Number\<close> gives \<^verbatim>\<open>NaN\<close> exactly when the string,
  without the white space around it, is neither empty nor a numeric literal of the
  language: a signed decimal literal, \<^verbatim>\<open>Infinity\<close> with a sign or without, or an unsigned
  literal in base 16, 8 or 2. Of the language's white space, the characters below
  \<^verbatim>\<open>U+0100\<close> are modelled.
\<close>

definition js_whitespace :: "char \<Rightarrow> bool" where
  "js_whitespace c =
     (c \<in> set [CHR 0x09, CHR 0x0A, CHR 0x0B, CHR 0x0C, CHR 0x0D, CHR '' '', CHR 0xA0])"

definition js_trim :: "string \<Rightarrow> string" where
  "js_trim s = rev (dropWhile js_whitespace (rev (dropWhile js_whitespace s)))"

definition digits_in :: "string \<Rightarrow> string \<Rightarrow> bool" where
  "digits_in alphabet ds = (ds \<noteq> [] \<and> list_all (\<lambda>c. c \<in> set alphabet) ds)"

fun non_decimal_literal :: "string \<Rightarrow> bool" where
  "non_decimal_literal (z # x # ds) =
     (z = CHR ''0'' \<and>
      ((x \<in> set ''xX'' \<and> digits_in ''0123456789abcdefABCDEF'' ds)
       \<or> (x \<in> set ''oO'' \<and> digits_in ''01234567'' ds)
       \<or> (x \<in> set ''bB'' \<and> digits_in ''01'' ds)))"
| "non_decimal_literal _ = False"

definition str_decimal_literal :: "string \<Rightarrow> bool" where
  "str_decimal_literal t =
     (let (neg, u) = take_sign t;
          ip = takeWhile is_digit u;
          (fp, r) = take_fraction (dropWhile is_digit u);
          (ok, r') = take_exponent r
      in u = ''Infinity'' \<or> (ip @ fp \<noteq> [] \<and> ok \<and> r' = []))"

definition isNaN :: "string \<Rightarrow> bool" where
  "isNaN s =
     (let t = js_trim s in \<not> (t = [] \<or> non_decimal_literal t \<or> str_decimal_literal t))"


text \<open>\<^verbatim>\<open>DELETE FROM feedback WHERE id = ?\<close>, with \<^verbatim>\<open>this.changes\<close>.\<close>

definition run_delete ::
  "(string \<Rightarrow> double) \<Rightarrow> fault \<Rightarrow> db \<Rightarrow> string \<Rightarrow> store_error + (nat \<times> db)" where
  "run_delete text_value flt st feedbackId =
     (if flt then Inl Unavailable
      else Inr (length (filter (\<lambda>r. sql_int_eq_text text_value (f_id r) feedbackId) (feedback st)),
                st\<lparr>feedback :=
                     filter (\<lambda>r. \<not> sql_int_eq_text text_value (f_id r) feedbackId) (feedback st)\<rparr>))"

definition delete_feedback :: "(string \<Rightarrow> double) \<Rightarrow> fault \<Rightarrow> db \<Rightarrow> string \<Rightarrow> reply \<times> db" where
  "delete_feedback text_value flt st feedbackId =
     (if feedbackId = [] \<or> isNaN feedbackId
      then (Reply 400 (Outcome False ''Invalid feedback ID.''), st)
      else case run_delete text_value flt st feedbackId of
             Inl e \<Rightarrow> (Reply 500 (Outcome False ''Failed to delete feedback.''), st)
           | Inr (changes, st') \<Rightarrow>
               if changes > 0
               then (Reply 200 (Outcome True ''Feedback deleted successfully.''), st')
               else (Reply 404 (Outcome False ''Feedback not found.''), st'))"

subsection \<open>Analytics\<close>

text \<open>
  \<^verbatim>\<open>GROUP BY\<close> as the engine runs it: the rows are sorted on the grouping key, and every
  run of rows with one key is folded into one group. \<open>group_sorted\<close> cuts a list into its
  runs.
\<close>

fun group_sorted :: "('r \<Rightarrow> 'k) \<Rightarrow> 'r list \<Rightarrow> ('k \<times> 'r list) list" where
  "group_sorted key [] = []"
| "group_sorted key (r # rs) =
     (case group_sorted key rs of
        [] \<Rightarrow> [(key r, [r])]
      | (k, g) # gs \<Rightarrow>
          if key r = k then (k, r # g) # gs else (key r, [r]) # (k, g) # gs)"

definition group_by :: "('r \<Rightarrow> 'k::linorder) \<Rightarrow> 'r list \<Rightarrow> ('k \<times> 'r list) list" where
  "group_by key rows = group_sorted key (sort_key key rows)"

text \<open>\<^verbatim>\<open>SELECT sentiment_label, COUNT(*) as count FROM feedback GROUP BY sentiment_label\<close>\<close>

definition sentiment_summary_rows :: "feedback_row list \<Rightarrow> (string \<times> nat) list" where
  "sentiment_summary_rows rows =
     map (\<lambda>(lab, g). (lab, length g)) (group_by f_sentiment_label rows)"

definition sentiment_summary :: "fault \<Rightarrow> db \<Rightarrow> reply" where
  "sentiment_summary flt st =
     (if flt then Reply 500 (Error ''DB error fetching sentiment summary'')
      else Reply 200 (Counts (sentiment_summary_rows (feedback st))))"

text \<open>
  \<^verbatim>\<open>DATE(created_at)\<close> is the day of the timestamp, here the number of whole days since
  the epoch; the text \<^verbatim>\<open>YYYY-MM-DD\<close> that SQLite returns orders days the same way.
  \<^verbatim>\<open>AVG\<close> is the sum of the group divided by its size.
\<close>

definition date_of :: "nat \<Rightarrow> nat" where
  "date_of created_at = created_at div 86400"

definition avg :: "real list \<Rightarrow> real" where
  "avg xs = sum_list xs / real (length xs)"

definition avg_sentiment_rows :: "feedback_row list \<Rightarrow> (nat \<times> real) list" where
  "avg_sentiment_rows rows =
     sort_key fst
       (map (\<lambda>(d, g). (d, avg (map f_sentiment_score g)))
            (group_by (\<lambda>r. date_of (f_created_at r)) rows))"

definition avg_sentiment_over_time :: "fault \<Rightarrow> db \<Rightarrow> reply" where
  "avg_sentiment_over_time flt st =
     (if flt then Reply 500 (Error ''DB error fetching avg sentiment over time'')
      else Reply 200 (Averages (avg_sentiment_rows (feedback st))))"

subsection \<open>Integers in route parameters\<close>

text \<open>
  A client that deletes the feedback \<open>n\<close>, or lists the feedback of the user \<open>n\<close>, puts the
  decimal numeral of \<open>n\<close> in the path; it is what \<^verbatim>\<open>String(n)\<close> writes for an integer
  below \<open>2 ^ 53\<close> in magnitude, which a number holds exactly.
\<close>

definition digit_char :: "nat \<Rightarrow> char" where
  "digit_char d = ''0123456789'' ! d"

fun show_nat :: "nat \<Rightarrow> string" where
  "show_nat n = (if n < 10 then [digit_char n] else show_nat (n div 10) @ [digit_char (n mod 10)])"

declare show_nat.simps [simp del]

definition show_int :: "int \<Rightarrow> string" where
  "show_int n = (if n < 0 then CHR ''-'' # show_nat (nat (- n)) else show_nat (nat n))"

subsection \<open>Sequences of requests\<close>

text \<open>
  The requests that reach the database, each with what the world supplies to its handler.
  The four \<^verbatim>\<open>GET\<close> routes only read.
\<close>

datatype event =
    Register "string \<Rightarrow> string option" fault fault credentials
  | Login "string \<Rightarrow> string \<Rightarrow> bool option" fault credentials
  | PostFeedback "string \<Rightarrow> real" nat fault feedback_req
  | DeleteFeedback "string \<Rightarrow> double" fault string

fun apply_event :: "db \<Rightarrow> event \<Rightarrow> db" where
  "apply_event st (Register hash flt_run flt_get req) = snd (register hash flt_run flt_get st req)"
| "apply_event st (Login compare flt req) = snd (login compare flt st req)"
| "apply_event st (PostFeedback polarity_scores now flt req) =
     snd (post_feedback polarity_scores now flt st req)"
| "apply_event st (DeleteFeedback text_value flt feedbackId) =
     snd (delete_feedback text_value flt st feedbackId)"

definition run :: "db \<Rightarrow> event list \<Rightarrow> db" where
  "run st evs = foldl apply_event st evs"

text \<open>
  What SQLite maintains for an \<^verbatim>\<open>AUTOINCREMENT\<close> table: the recorded sequence is at
  least every rowid present.
\<close>

definition seq_covers :: "db \<Rightarrow> bool" where
  "seq_covers st = list_all (\<lambda>r. f_id r \<le> feedback_seq st) (feedback st)"

subsection \<open>Sample data\<close>

text \<open>
  Stand-ins for the two libraries and a few database states, used to run the handlers on
  concrete requests. \<open>sample_hash\<close> and \<open>sample_compare\<close> have the one property of bcrypt
  that the server relies on, that a password verifies against its own hash;
  \<open>sample_scores\<close> returns a few fixed compound scores. \<open>sample_value\<close> stands for the
  engine's conversion of the literals that it rounds; none of the sample requests carries
  such a literal, so its value is never read.
\<close>

definition sample_value :: "string \<Rightarrow> double" where
  "sample_value z = PosInf"

definition sample_hash :: "string \<Rightarrow> string option" where
  "sample_hash p = Some (''$2b$10$'' @ p)"

definition sample_compare :: "string \<Rightarrow> string \<Rightarrow> bool option" where
  "sample_compare p h = Some (h = ''$2b$10$'' @ p)"

definition sample_scores :: "string \<Rightarrow> real" where
  "sample_scores t =
     (if t = ''This is terrible and broken'' then - 0.7351
      else if t = ''fine'' then 0.3
      else if t = ''good'' then 0.31
      else if t = ''meh'' then - 0.3
      else if t = ''bad'' then - 0.31
      else 0)"

definition empty_db :: db where
  "empty_db = \<lparr>users = [], users_seq = 0, feedback = [], feedback_seq = 0\<rparr>"

definition alice :: credentials where
  "alice = \<lparr>c_username = Some ''alice'', c_password = Some ''pw123''\<rparr>"

definition sample_row :: "int \<Rightarrow> string \<Rightarrow> real \<Rightarrow> nat \<Rightarrow> feedback_row" where
  "sample_row i lab score t =
     \<lparr>f_id = i, f_user_id = Some (Finite 1), f_username = Some ''alice'', f_role = ''user'',
      f_feedback_type = Some ''bug'', f_feedback_text = ''text'', f_sentiment_label = lab,
      f_sentiment_score = score, f_created_at = t\<rparr>"

definition sample_db :: db where
  "sample_db =
     \<lparr>users = [\<lparr>u_id = 1, u_username = ''alice'', u_password = ''$2b$10$pw123''\<rparr>],
      users_seq = 1,
      feedback = [sample_row 1 ''positive'' 0.5 86400, sample_row 2 ''negative'' (- 0.5) 90000,
                  sample_row 3 ''neutral'' 0.2 100000, sample_row 4 ''positive'' 0.8 200000],
      feedback_seq = 4\<rparr>"

definition sample_feedback :: "string \<Rightarrow> feedback_req" where
  "sample_feedback t =
     \<lparr>q_user_id = Some 1, q_username = Some ''alice'', q_role = Some ''user'',
      q_feedback_type = Some ''bug'', q_feedback_text = Some t\<rparr>"

section \<open>Properties\<close>

subsection \<open>Numbers of the request body\<close>

text \<open>
  \<open>bit_length\<close> is the number of bits of a magnitude, so a magnitude below \<open>2 ^ 53\<close> loses
  no bit: an integer below \<open>2 ^ 53\<close> in magnitude is parsed to itself. No integer but 0 is
  parsed to 0.
\<close>

lemma bit_length_le: "0 \<le> a \<Longrightarrow> a < 2 ^ k \<Longrightarrow> bit_length a \<le> k"
proof (induction k arbitrary: a)
  case 0
  then have "a = 0" by simp
  then show ?case by (simp add: bit_length.simps)
next
  case (Suc k)
  show ?case
  proof (cases "a \<le> 0")
    case True
    then show ?thesis by (simp add: bit_length.simps[of a])
  next
    case False
    then have "0 \<le> a div 2" "a div 2 < 2 ^ k" using Suc.prems by auto
    then have "bit_length (a div 2) \<le> k" by (rule Suc.IH)
    with False show ?thesis by (simp add: bit_length.simps[of a])
  qed
qed

lemma bit_length_lower: "0 < a \<Longrightarrow> 2 ^ (bit_length a - 1) \<le> a"
proof (induction a rule: bit_length.induct)
  case (1 n)
  show ?case
  proof (cases "n div 2 \<le> 0")
    case True
    with 1(2) have "n = 1" by auto
    then show ?thesis by (simp add: bit_length.simps[of 1] bit_length.simps[of 0])
  next
    case False
    then have pos: "0 < n div 2" by simp
    with 1 have IH: "2 ^ (bit_length (n div 2) - 1) \<le> n div 2" by simp
    from pos have "bit_length (n div 2) \<noteq> 0" by (simp add: bit_length.simps[of "n div 2"])
    then obtain j where j: "bit_length (n div 2) = Suc j" by (cases "bit_length (n div 2)") auto
    from IH j have "2 ^ j \<le> n div 2" by simp
    then have "2 * 2 ^ j \<le> n" by linarith
    with 1(2) j show ?thesis by (simp add: bit_length.simps[of n])
  qed
qed

lemma round_to_double_exact: "0 \<le> a \<Longrightarrow> a < 2 ^ 53 \<Longrightarrow> round_to_double a = a"
  using bit_length_le[of a 53] by (simp add: round_to_double_def)

lemma round_to_double_pos: "0 < a \<Longrightarrow> 0 < round_to_double a"
proof -
  assume a: "0 < a"
  define k where "k = bit_length a - 53"
  have "k \<le> bit_length a - 1" by (simp add: k_def)
  then have "(2::int) ^ k \<le> 2 ^ (bit_length a - 1)" by (simp add: power_increasing)
  with bit_length_lower[OF a] have "2 ^ k \<le> a" by linarith
  then have q: "0 < a div 2 ^ k" by (simp add: pos_imp_zdiv_pos_iff)
  then show ?thesis by (auto simp: round_to_double_def Let_def k_def)
qed

lemma json_integer_small: "\<bar>n\<bar> < 2 ^ 53 \<Longrightarrow> json_integer n = Finite (of_int n)"
proof -
  assume b: "\<bar>n\<bar> < 2 ^ 53"
  then have r: "round_to_double \<bar>n\<bar> = \<bar>n\<bar>" by (simp add: round_to_double_exact)
  have "\<bar>n\<bar> < (2::int) ^ 1024" using b by (rule less_le_trans) simp
  then show ?thesis by (auto simp: json_integer_def r Let_def)
qed

lemma json_integer_zero: "json_integer n = Finite 0 \<longleftrightarrow> n = 0"
proof
  assume "n = 0"
  then show "json_integer n = Finite 0" by (simp add: json_integer_small)
next
  assume z: "json_integer n = Finite 0"
  show "n = 0"
  proof (rule ccontr)
    assume "n \<noteq> 0"
    then have "0 < round_to_double \<bar>n\<bar>" by (simp add: round_to_double_pos)
    with z show False by (auto simp: json_integer_def Let_def split: if_splits)
  qed
qed

lemma truthy_num_json: "truthy_num (map_option json_integer x) = truthy_int x"
  by (cases x) (simp_all add: json_integer_zero)

lemma or_null_json:
  "or_null (map_option json_integer x) = (if truthy_int x then map_option json_integer x else None)"
  by (cases x) (simp_all add: json_integer_zero)

lemma json_integer_samples: "json_integer 1 = Finite 1" "json_integer 7 = Finite 7"
  by (simp_all add: json_integer_small)

subsection \<open>Credential store\<close>

lemma insert_user_users:
  "insert_user flt st u h = Inr st' \<Longrightarrow>
     u \<notin> set (map u_username (users st)) \<and>
     users st' = users st @
       [\<lparr>u_id = next_rowid (users_seq st) (map u_id (users st)), u_username = u, u_password = h\<rparr>]"
  by (auto simp: insert_user_def Let_def split: if_splits)

lemma register_users_grow: "\<exists>ys. users (snd (register hash f1 f2 st req)) = users st @ ys"
  by (auto simp: register_def Let_def insert_user_def get_user_def
      split: option.splits sum.splits if_splits)

lemma login_state: "snd (login compare f st req) = st"
  by (auto simp: login_def Let_def split: option.splits sum.splits bool.splits)

lemma post_feedback_users: "users (snd (post_feedback p now f st req)) = users st"
  by (auto simp: post_feedback_def Let_def insert_feedback_def
      split: option.splits sum.splits prod.splits if_splits)

lemma delete_feedback_users: "users (snd (delete_feedback tv f st i)) = users st"
  by (auto simp: delete_feedback_def run_delete_def split: sum.splits prod.splits if_splits)

lemma apply_event_users_grow: "\<exists>ys. users (apply_event st ev) = users st @ ys"
  by (cases ev)
    (simp_all add: register_users_grow login_state post_feedback_users delete_feedback_users)

lemma run_users_grow: "\<exists>ys. users (run st evs) = users st @ ys"
  unfolding run_def
proof (induction evs arbitrary: st)
  case Nil
  then show ?case by simp
next
  case (Cons ev evs)
  obtain ys where 1: "users (apply_event st ev) = users st @ ys"
    using apply_event_users_grow by blast
  obtain zs where 2:
    "users (foldl apply_event (apply_event st ev) evs) = users (apply_event st ev) @ zs"
    using Cons.IH by blast
  show ?case using 1 2 by simp
qed

lemma find_append_Some: "find P xs = Some r \<Longrightarrow> find P (xs @ ys) = Some r"
  by (induction xs) (auto split: if_splits)

lemma find_fresh_last: "\<forall>x\<in>set xs. \<not> P x \<Longrightarrow> P r \<Longrightarrow> find P (xs @ [r]) = Some r"
  by (induction xs) auto

text \<open>
  A registration that answers with a user id has stored one row for the name, holding
  that id and the hash, and a lookup of the name finds this row.
\<close>

lemma register_success:
  assumes "register hash f1 f2 st req = (Reply 200 (SuccessUser i), st1)"
  shows "\<exists>u p h. c_username req = Some u \<and> u \<noteq> [] \<and> c_password req = Some p \<and> p \<noteq> [] \<and>
           hash p = Some h \<and>
           find (\<lambda>r. u_username r = u) (users st1)
             = Some \<lparr>u_id = i, u_username = u, u_password = h\<rparr>"
proof -
  from assms obtain u p where
    up: "c_username req = Some u" "u \<noteq> []" "c_password req = Some p" "p \<noteq> []"
    by (cases "c_username req"; cases "c_password req")
      (auto simp: register_def split: if_splits)
  from assms up obtain h where h: "hash p = Some h"
    by (cases "hash p") (auto simp: register_def)
  from assms up h obtain st' where ins: "insert_user f1 st u h = Inr st'"
    by (cases "insert_user f1 st u h") (auto simp: register_def)
  let ?row = "\<lparr>u_id = next_rowid (users_seq st) (map u_id (users st)),
               u_username = u, u_password = h\<rparr>"
  from insert_user_users[OF ins] have fresh: "\<forall>x\<in>set (users st). u_username x \<noteq> u"
    and us: "users st' = users st @ [?row]" by auto
  have fnd: "find (\<lambda>r. u_username r = u) (users st') = Some ?row"
    unfolding us by (rule find_fresh_last) (use fresh in auto)
  from assms up h ins fnd have "st1 = st'" "i = u_id ?row"
    by (auto simp: register_def get_user_def split: if_splits)
  with fnd up h show ?thesis by auto
qed

text \<open>
  Claim C7. When a registration of a user name and password succeeds with a user id, a
  login with the same name and password succeeds with the same id, directly afterwards
  and after any further requests, provided the store answers the lookup. The only fact
  about bcrypt that is used: a password verifies against the hash computed from it.
\<close>

theorem register_then_login:
  assumes reg: "register hash f1 f2 st req = (Reply 200 (SuccessUser i), st1)"
      and bcrypt: "\<forall>p h. hash p = Some h \<longrightarrow> compare p h = Some True"
  shows "login compare False (run st1 evs) req = (Reply 200 (SuccessUser i), run st1 evs)"
proof -
  from register_success[OF reg] obtain u p h where
    up: "c_username req = Some u" "u \<noteq> []" "c_password req = Some p" "p \<noteq> []"
    and h: "hash p = Some h"
    and fnd: "find (\<lambda>r. u_username r = u) (users st1)
                = Some \<lparr>u_id = i, u_username = u, u_password = h\<rparr>"
    by blast
  obtain ys where "users (run st1 evs) = users st1 @ ys"
    using run_users_grow by blast
  with fnd have "find (\<lambda>r. u_username r = u) (users (run st1 evs))
                   = Some \<lparr>u_id = i, u_username = u, u_password = h\<rparr>"
    by (simp add: find_append_Some)
  moreover from bcrypt h have "compare p h = Some True" by blast
  ultimately show ?thesis using up
    by (simp add: login_def get_user_def)
qed

theorem register_then_login_witness:
  "register sample_hash False False empty_db alice
     = (Reply 200 (SuccessUser 1),
        \<lparr>users = [\<lparr>u_id = 1, u_username = ''alice'', u_password = ''$2b$10$pw123''\<rparr>],
         users_seq = 1, feedback = [], feedback_seq = 0\<rparr>)
   \<and> fst (login sample_compare False
        (run \<lparr>users = [\<lparr>u_id = 1, u_username = ''alice'', u_password = ''$2b$10$pw123''\<rparr>],
              users_seq = 1, feedback = [], feedback_seq = 0\<rparr>
           [Register sample_hash False False
              \<lparr>c_username = Some ''bob'', c_password = Some ''hunter2''\<rparr>,
            Register sample_hash False False
              \<lparr>c_username = Some ''alice'', c_password = Some ''other''\<rparr>])
        alice)
     = Reply 200 (SuccessUser 1)"
proof -
  have h1: "register sample_hash False False empty_db alice
     = (Reply 200 (SuccessUser 1),
        \<lparr>users = [\<lparr>u_id = 1, u_username = ''alice'', u_password = ''$2b$10$pw123''\<rparr>],
         users_seq = 1, feedback = [], feedback_seq = 0\<rparr>)"
    by (simp add: register_def sample_hash_def empty_db_def alice_def insert_user_def
        get_user_def next_rowid_def)
  have h2: "\<forall>p h. sample_hash p = Some h \<longrightarrow> sample_compare p h = Some True"
    by (simp add: sample_hash_def sample_compare_def)
  show ?thesis
    using h1 h2 register_then_login[OF h1 h2] by simp
qed

text \<open>
  Claim C8. A login whose name and password are both present fails in the same way,
  status 400 with the message \<^verbatim>\<open>Invalid username or password\<close>, when no user has the
  name and when the user exists and the password does not verify against the stored hash;
  the database is left as it was.
\<close>

theorem login_failure_uniform:
  assumes "c_username req = Some u" "u \<noteq> []" "c_password req = Some p" "p \<noteq> []"
      and "u \<notin> set (map u_username (users st))
           \<or> (\<exists>row. find (\<lambda>r. u_username r = u) (users st) = Some row
                    \<and> compare p (u_password row) \<noteq> Some True)"
  shows "login compare flt st req = (Reply 400 (Error ''Invalid username or password''), st)"
proof -
  from assms(5) show ?thesis
  proof
    assume "u \<notin> set (map u_username (users st))"
    then have "find (\<lambda>r. u_username r = u) (users st) = None"
      by (auto simp: find_None_iff)
    with assms(1-4) show ?thesis
      by (simp add: login_def get_user_def)
  next
    assume "\<exists>row. find (\<lambda>r. u_username r = u) (users st) = Some row
                  \<and> compare p (u_password row) \<noteq> Some True"
    then obtain row where "find (\<lambda>r. u_username r = u) (users st) = Some row"
      and "compare p (u_password row) \<noteq> Some True" by blast
    with assms(1-4) show ?thesis
      by (cases "compare p (u_password row)")
        (auto simp: login_def get_user_def split: bool.splits)
  qed
qed

theorem login_failure_uniform_witness:
  "login sample_compare False sample_db \<lparr>c_username = Some ''mallory'', c_password = Some ''pw123''\<rparr>
     = (Reply 400 (Error ''Invalid username or password''), sample_db)
   \<and> login sample_compare False sample_db \<lparr>c_username = Some ''alice'', c_password = Some ''guess''\<rparr>
     = (Reply 400 (Error ''Invalid username or password''), sample_db)"
proof -
  have unknown: "''mallory'' \<notin> set (map u_username (users sample_db))
      \<or> (\<exists>row. find (\<lambda>r. u_username r = ''mallory'') (users sample_db) = Some row
               \<and> sample_compare ''pw123'' (u_password row) \<noteq> Some True)"
    by (simp add: sample_db_def)
  have wrong: "''alice'' \<notin> set (map u_username (users sample_db))
      \<or> (\<exists>row. find (\<lambda>r. u_username r = ''alice'') (users sample_db) = Some row
               \<and> sample_compare ''guess'' (u_password row) \<noteq> Some True)"
    by (simp add: sample_db_def sample_compare_def)
  show ?thesis
    using login_failure_uniform[where req = "\<lparr>c_username = Some ''mallory'', c_password = Some ''pw123''\<rparr>"
            and u = "''mallory''" and p = "''pw123''" and st = sample_db
            and compare = sample_compare and flt = False]
          login_failure_uniform[where req = "\<lparr>c_username = Some ''alice'', c_password = Some ''guess''\<rparr>"
            and u = "''alice''" and p = "''guess''" and st = sample_db
            and compare = sample_compare and flt = False]
          unknown wrong
    by simp
qed

subsection \<open>Feedback ingestion\<close>

lemma classify_label:
  "fst (classify ps t) = ''positive'' \<longleftrightarrow> ps t > 0.3"
  "fst (classify ps t) = ''negative'' \<longleftrightarrow> ps t < - 0.3"
  "fst (classify ps t) = ''neutral'' \<longleftrightarrow> - 0.3 \<le> ps t \<and> ps t \<le> 0.3"
  "snd (classify ps t) = ps t"
  by (auto simp: classify_def Let_def)

lemma post_feedback_rejected:
  assumes "\<not> truthy_str (q_feedback_text req) \<or> \<not> truthy_str (q_role req)
           \<or> (\<not> truthy_str (q_username req) \<and> \<not> truthy_int (q_user_id req))"
  shows "post_feedback ps now flt st req = (Reply 400 (Error ''Missing feedback fields''), st)"
  using assms by (auto simp: post_feedback_def truthy_num_json)

lemma post_feedback_passed:
  assumes "truthy_str (q_feedback_text req)" "truthy_str (q_role req)"
          "truthy_str (q_username req) \<or> truthy_int (q_user_id req)"
  shows "post_feedback ps now flt st req =
     (case insert_feedback flt now st (or_null (map_option json_integer (q_user_id req)))
             (or_empty (q_username req))
             (or_empty (q_role req)) (or_empty (q_feedback_type req)) (or_empty (q_feedback_text req))
             (fst (classify ps (or_empty (q_feedback_text req))))
             (snd (classify ps (or_empty (q_feedback_text req)))) of
        Inl e \<Rightarrow> (Reply 500 (Error ''Failed to save feedback''), st)
      | Inr st' \<Rightarrow> (Reply 200 Success, st'))"
  using assms by (auto simp: post_feedback_def Let_def truthy_num_json split: prod.splits)

lemma post_feedback_success:
  assumes "post_feedback ps now flt st req = (Reply 200 Success, st')"
  shows "truthy_str (q_feedback_text req) \<and> truthy_str (q_role req)
       \<and> (truthy_str (q_username req) \<or> truthy_int (q_user_id req))
       \<and> \<not> flt \<and> or_empty (q_role req) \<in> set [''guest'', ''user'', ''admin'']
       \<and> st' = st\<lparr>feedback := feedback st @
             [\<lparr>f_id = next_rowid (feedback_seq st) (map f_id (feedback st)),
               f_user_id = or_null (map_option json_integer (q_user_id req)),
               f_username = Some (or_empty (q_username req)),
               f_role = or_empty (q_role req),
               f_feedback_type = Some (or_empty (q_feedback_type req)),
               f_feedback_text = or_empty (q_feedback_text req),
               f_sentiment_label = fst (classify ps (or_empty (q_feedback_text req))),
               f_sentiment_score = snd (classify ps (or_empty (q_feedback_text req))),
               f_created_at = now\<rparr>],
           feedback_seq := next_rowid (feedback_seq st) (map f_id (feedback st))\<rparr>"
proof -
  have v: "truthy_str (q_feedback_text req)" "truthy_str (q_role req)"
       "truthy_str (q_username req) \<or> truthy_int (q_user_id req)"
    using assms post_feedback_rejected[of req ps now flt st] by auto
  show ?thesis
    using assms v unfolding post_feedback_passed[OF v]
    by (auto simp: insert_feedback_def Let_def split: sum.splits if_splits)
qed

text \<open>
  Claim C1. Whenever \<^verbatim>\<open>POST /api/feedback\<close> stores a feedback, the stored row holds the
  submitted text, its score is the compound score of that text, and its label is
  \<^verbatim>\<open>positive\<close> exactly when the score is above 0.3, \<^verbatim>\<open>negative\<close> exactly when it is
  below -0.3 and \<^verbatim>\<open>neutral\<close> exactly when it lies between -0.3 and 0.3, both included.
\<close>

theorem stored_label_thresholds:
  assumes "post_feedback ps now flt st req = (Reply 200 Success, st')"
  shows "\<exists>row ftext. q_feedback_text req = Some ftext \<and> feedback st' = feedback st @ [row]
           \<and> f_feedback_text row = ftext \<and> f_sentiment_score row = ps ftext
           \<and> (f_sentiment_label row = ''positive'' \<longleftrightarrow> f_sentiment_score row > 0.3)
           \<and> (f_sentiment_label row = ''negative'' \<longleftrightarrow> f_sentiment_score row < - 0.3)
           \<and> (f_sentiment_label row = ''neutral''
                \<longleftrightarrow> - 0.3 \<le> f_sentiment_score row \<and> f_sentiment_score row \<le> 0.3)"
proof -
  note s = post_feedback_success[OF assms]
  from s obtain ftext where t: "q_feedback_text req = Some ftext"
    by (cases "q_feedback_text req") auto
  from s have "feedback st' = feedback st @
             [\<lparr>f_id = next_rowid (feedback_seq st) (map f_id (feedback st)),
               f_user_id = or_null (map_option json_integer (q_user_id req)),
               f_username = Some (or_empty (q_username req)),
               f_role = or_empty (q_role req),
               f_feedback_type = Some (or_empty (q_feedback_type req)),
               f_feedback_text = or_empty (q_feedback_text req),
               f_sentiment_label = fst (classify ps (or_empty (q_feedback_text req))),
               f_sentiment_score = snd (classify ps (or_empty (q_feedback_text req))),
               f_created_at = now\<rparr>]" by simp
  then show ?thesis using t by (simp add: classify_label)
qed

theorem stored_label_thresholds_witness:
  "post_feedback sample_scores 1000 False empty_db (sample_feedback ''fine'')
     = (Reply 200 Success,
        \<lparr>users = [], users_seq = 0,
         feedback = [\<lparr>f_id = 1, f_user_id = Some (Finite 1), f_username = Some ''alice'', f_role = ''user'',
                      f_feedback_type = Some ''bug'', f_feedback_text = ''fine'',
                      f_sentiment_label = ''neutral'', f_sentiment_score = 0.3,
                      f_created_at = 1000\<rparr>],
         feedback_seq = 1\<rparr>)"
proof -
  have h: "post_feedback sample_scores 1000 False empty_db (sample_feedback ''fine'')
     = (Reply 200 Success,
        \<lparr>users = [], users_seq = 0,
         feedback = [\<lparr>f_id = 1, f_user_id = Some (Finite 1), f_username = Some ''alice'', f_role = ''user'',
                      f_feedback_type = Some ''bug'', f_feedback_text = ''fine'',
                      f_sentiment_label = fst (classify sample_scores ''fine''),
                      f_sentiment_score = sample_scores ''fine'',
                      f_created_at = 1000\<rparr>],
         feedback_seq = 1\<rparr>)"
    by (simp add: post_feedback_def sample_feedback_def empty_db_def insert_feedback_def
        next_rowid_def classify_def Let_def json_integer_samples)
  from stored_label_thresholds[OF h]
  have "fst (classify sample_scores ''fine'') = ''neutral''"
    by (simp add: sample_scores_def)
  with h show ?thesis by (simp add: sample_scores_def)
qed

text \<open>
  Claim C10. A request without \<^verbatim>\<open>username\<close> and without \<^verbatim>\<open>user_id\<close> is answered with
  status 400 and stores nothing, whatever its other fields are.
\<close>

theorem feedback_needs_identity:
  assumes "q_username req = None" and "q_user_id req = None"
  shows "post_feedback ps now flt st req = (Reply 400 (Error ''Missing feedback fields''), st)"
  using assms by (simp add: post_feedback_rejected)

theorem feedback_needs_identity_witness:
  "post_feedback sample_scores 1000 False empty_db
     \<lparr>q_user_id = None, q_username = None, q_role = Some ''guest'',
      q_feedback_type = Some ''praise'', q_feedback_text = Some ''good''\<rparr>
   = (Reply 400 (Error ''Missing feedback fields''), empty_db)"
  using feedback_needs_identity[of "\<lparr>q_user_id = None, q_username = None, q_role = Some ''guest'',
      q_feedback_type = Some ''praise'', q_feedback_text = Some ''good''\<rparr>" sample_scores 1000 False empty_db]
  by simp

text \<open>
  With a text and a role of the table, and the store at work, a request is accepted exactly
  when one of the two is present (a \<^verbatim>\<open>user_id\<close> of 0 counts as missing).
\<close>

lemma feedback_identity_iff:
  assumes "truthy_str (q_feedback_text req)" "or_empty (q_role req) \<in> set [''guest'', ''user'', ''admin'']"
  shows "fst (post_feedback ps now False st req) = Reply 200 Success
           \<longleftrightarrow> truthy_str (q_username req) \<or> truthy_int (q_user_id req)"
proof (cases "truthy_str (q_username req) \<or> truthy_int (q_user_id req)")
  case True
  from assms(2) have r: "truthy_str (q_role req)" by (cases "q_role req") auto
  show ?thesis using True assms
    by (simp add: post_feedback_passed[OF assms(1) r True] insert_feedback_def Let_def)
next
  case False
  then show ?thesis by (simp add: post_feedback_rejected)
qed

text \<open>
  Claim C2, as stated, fails: a role outside the three names passes the handler's test of
  presence and is refused by the table's \<^verbatim>\<open>CHECK\<close>, which the handler reports with
  status 500, not 400.
\<close>

theorem invalid_role_is_store_failure:
  "post_feedback sample_scores 1000 False empty_db
     \<lparr>q_user_id = None, q_username = Some ''bob'', q_role = Some ''superuser'',
      q_feedback_type = None, q_feedback_text = Some ''hello''\<rparr>
   = (Reply 500 (Error ''Failed to save feedback''), empty_db)"
  by (simp add: post_feedback_def insert_feedback_def classify_def Let_def)

text \<open>
  Claim C2, amended. A request whose text is empty or missing, or whose role is not one of
  \<^verbatim>\<open>guest\<close>, \<^verbatim>\<open>user\<close>, \<^verbatim>\<open>admin\<close>, stores nothing. Its status is 400 when the text or the
  role is empty or missing (or both names of the author are), and 500 in the remaining case,
  a role that is present and refused by the table.
\<close>

theorem insert_rejects_invalid:
  assumes "\<not> truthy_str (q_feedback_text req)
           \<or> or_empty (q_role req) \<notin> set [''guest'', ''user'', ''admin'']"
  shows "post_feedback ps now flt st req =
     (if \<not> truthy_str (q_feedback_text req) \<or> \<not> truthy_str (q_role req)
         \<or> (\<not> truthy_str (q_username req) \<and> \<not> truthy_int (q_user_id req))
      then Reply 400 (Error ''Missing feedback fields'')
      else Reply 500 (Error ''Failed to save feedback''), st)"
proof (cases "\<not> truthy_str (q_feedback_text req) \<or> \<not> truthy_str (q_role req)
         \<or> (\<not> truthy_str (q_username req) \<and> \<not> truthy_int (q_user_id req))")
  case True
  then show ?thesis by (simp add: post_feedback_rejected)
next
  case False
  then have v: "truthy_str (q_feedback_text req)" "truthy_str (q_role req)"
       "truthy_str (q_username req) \<or> truthy_int (q_user_id req)" by auto
  with assms have "or_empty (q_role req) \<notin> set [''guest'', ''user'', ''admin'']" by simp
  then show ?thesis using False
    by (simp add: post_feedback_passed[OF v] insert_feedback_def)
qed

theorem insert_rejects_invalid_witness:
  "post_feedback sample_scores 1000 False sample_db (sample_feedback [])
     = (Reply 400 (Error ''Missing feedback fields''), sample_db)
   \<and> post_feedback sample_scores 1000 False sample_db
        ((sample_feedback ''good'')\<lparr>q_role := Some ''Admin''\<rparr>)
     = (Reply 500 (Error ''Failed to save feedback''), sample_db)"
  using insert_rejects_invalid[of "sample_feedback []" sample_scores 1000 False sample_db]
        insert_rejects_invalid[of "(sample_feedback ''good'')\<lparr>q_role := Some ''Admin''\<rparr>"
          sample_scores 1000 False sample_db]
  by (simp add: sample_feedback_def)



text \<open>
  Through \<^verbatim>\<open>POST /api/feedback\<close> the classification only meets texts that are not empty:
  the handler answers an empty text with status 400 first (\<open>post_feedback_rejected\<close>), as
  the insertion of a feedback requires.
\<close>

subsection \<open>Decimal numerals in route parameters\<close>

lemma is_digit_digit_char: "d < 10 \<Longrightarrow> is_digit (digit_char d)"
proof -
  assume "d < 10"
  then have "d \<in> {0,1,2,3,4,5,6,7,8,9}" by auto
  then show ?thesis by (auto simp: is_digit_def digit_char_def)
qed

lemma digit_val_digit_char: "d < 10 \<Longrightarrow> digit_val (digit_char d) = int d"
proof -
  assume "d < 10"
  then have "d \<in> {0,1,2,3,4,5,6,7,8,9}" by auto
  then show ?thesis by (auto simp: digit_val_def digit_char_def)
qed

lemma show_nat_digits: "list_all is_digit (show_nat n) \<and> show_nat n \<noteq> []"
proof (induction n rule: show_nat.induct)
  case (1 n)
  show ?case
  proof (cases "n < 10")
    case True
    then show ?thesis by (simp add: show_nat.simps[of n] is_digit_digit_char)
  next
    case False
    with 1 show ?thesis by (simp add: show_nat.simps[of n] is_digit_digit_char)
  qed
qed

lemma digits_val_snoc: "digits_val (ds @ [c]) = 10 * digits_val ds + digit_val c"
  by (simp add: digits_val_def)

lemma digits_val_show_nat: "digits_val (show_nat n) = int n"
proof (induction n rule: show_nat.induct)
  case (1 n)
  show ?case
  proof (cases "n < 10")
    case True
    then show ?thesis by (simp add: show_nat.simps[of n] digits_val_def digit_val_digit_char)
  next
    case False
    with 1 have "digits_val (show_nat (n div 10)) = int (n div 10)" by simp
    with False show ?thesis
      by (simp add: show_nat.simps[of n] digits_val_snoc digit_val_digit_char zdiv_int zmod_int)
  qed
qed

lemma digit_not_space:
  "is_digit c \<Longrightarrow>
     \<not> sqlite_isspace c \<and> c \<noteq> CHR ''-'' \<and> c \<noteq> CHR ''+'' \<and> \<not> js_whitespace c"
  by (auto simp: is_digit_def sqlite_isspace_def js_whitespace_def)

text \<open>
  SQLite reads a run of digits, with a minus sign or without, as a number, and as the
  integer it writes when that is below \<open>2 ^ 53\<close>.
\<close>

lemma sqlite_digits:
  assumes "list_all is_digit ds" "ds \<noteq> []"
  shows "sqlite_is_numeric ds" "sqlite_is_numeric (CHR ''-'' # ds)"
    and "digits_val ds < 2 ^ 53 \<Longrightarrow> sqlite_small_integer ds = Some (digits_val ds)"
    and "digits_val ds < 2 ^ 53 \<Longrightarrow> sqlite_small_integer (CHR ''-'' # ds) = Some (- digits_val ds)"
proof -
  from assms obtain c cs where ds: "ds = c # cs" by (cases ds) auto
  with assms have c: "is_digit c" by simp
  have tw: "takeWhile is_digit ds = ds" "dropWhile is_digit ds = []"
    using assms(1) by (simp_all add: list_all_iff)
  have dw: "dropWhile sqlite_isspace ds = ds" using c ds digit_not_space by simp
  have ts: "take_sign ds = (False, ds)" using c ds digit_not_space by simp
  have dm: "\<not> sqlite_isspace CHR ''-''"
    by (simp add: sqlite_isspace_def)
  show "sqlite_is_numeric ds"
    using assms(2) by (simp add: sqlite_is_numeric_def dw ts tw)
  show "sqlite_is_numeric (CHR ''-'' # ds)"
    using assms(2) by (simp add: sqlite_is_numeric_def dm tw)
  show "sqlite_small_integer ds = Some (digits_val ds)" if "digits_val ds < 2 ^ 53"
    using assms(2) that by (simp add: sqlite_small_integer_def dw ts tw)
  show "sqlite_small_integer (CHR ''-'' # ds) = Some (- digits_val ds)" if "digits_val ds < 2 ^ 53"
    using assms(2) that by (simp add: sqlite_small_integer_def dm tw)
qed

lemma sqlite_numeric_show_int:
  assumes "\<bar>n\<bar> < 2 ^ 53"
  shows "sqlite_numeric text_value (show_int n) = Some (Finite (of_int n))"
proof (cases "n < 0")
  case True
  have d: "list_all is_digit (show_nat (nat (- n)))" "show_nat (nat (- n)) \<noteq> []"
    using show_nat_digits by auto
  have v: "digits_val (show_nat (nat (- n))) = - n"
    using True by (simp add: digits_val_show_nat)
  with assms True have "digits_val (show_nat (nat (- n))) < 2 ^ 53" by simp
  from sqlite_digits(2)[OF d] sqlite_digits(4)[OF d this] True v show ?thesis
    by (simp add: sqlite_numeric_def show_int_def)
next
  case False
  have d: "list_all is_digit (show_nat (nat n))" "show_nat (nat n) \<noteq> []"
    using show_nat_digits by auto
  have v: "digits_val (show_nat (nat n)) = n"
    using False by (simp add: digits_val_show_nat)
  with assms False have "digits_val (show_nat (nat n)) < 2 ^ 53" by simp
  from sqlite_digits(1)[OF d] sqlite_digits(3)[OF d this] False v show ?thesis
    by (simp add: sqlite_numeric_def show_int_def)
qed

lemma sql_int_eq_text_show_int:
  "\<bar>n\<bar> < 2 ^ 53 \<Longrightarrow> sql_int_eq_text text_value m (show_int n) \<longleftrightarrow> m = n"
  by (auto simp: sql_int_eq_text_def sqlite_numeric_show_int)


















subsection \<open>Row identifiers and listings\<close>

lemma foldr_max_ge: "b \<le> foldr max ids b" "x \<in> set ids \<Longrightarrow> x \<le> foldr max ids (b::int)"
  by (induction ids) auto

lemma next_rowid_fresh:
  "next_rowid seq ids \<notin> set ids" "0 < next_rowid seq ids" "seq < next_rowid seq ids"
proof -
  show "next_rowid seq ids \<notin> set ids"
    using foldr_max_ge(2)[of "next_rowid seq ids" ids "max seq 0"]
    by (auto simp: next_rowid_def)
  show "0 < next_rowid seq ids" "seq < next_rowid seq ids"
    using foldr_max_ge(1)[of "max seq 0" ids] by (auto simp: next_rowid_def)
qed

lemma next_rowid_above: "x \<in> set ids \<Longrightarrow> x < next_rowid seq ids"
  using foldr_max_ge(2)[of x ids "max seq 0"] by (simp add: next_rowid_def)

lemma set_order_by_created_at_desc [simp]: "set (order_by_created_at_desc rows) = set rows"
  by (simp add: order_by_created_at_desc_def)

text \<open>Some parameters and numbers, evaluated.\<close>

lemma show_int_samples: "show_int 1 = ''1''" "show_int 2 = ''2''" "show_int 7 = ''7''"
  by (simp_all add: show_int_def show_nat.simps digit_char_def)

lemma isNaN_samples:
  "isNaN ''abc''" "isNaN ''12abc''" "isNaN ''1e''" "\<not> isNaN ''1.5''" "\<not> isNaN ''0x1F''" "\<not> isNaN '' 2 ''"
  by code_simp+

lemma json_integer_rounds: "json_integer 9007199254740993 = Finite 9007199254740992"
  by code_simp

text \<open>
  Claim C4, as stated, fails on records that meet the rules of the data model (a text that
  is not empty and a role of the table). A guest's record with neither \<^verbatim>\<open>username\<close> nor
  \<^verbatim>\<open>user_id\<close> is refused with status 400 and no listing returns it; a record whose
  \<^verbatim>\<open>user_id\<close> is 0 is stored with \<^verbatim>\<open>user_id\<close> \<^verbatim>\<open>NULL\<close>; and a \<^verbatim>\<open>user_id\<close> that no number
  holds exactly, here \<open>2 ^ 53 + 1\<close>, is stored as the number next to it.
\<close>

theorem unnamed_guest_not_stored:
  "post_feedback sample_scores 1000 False empty_db
     \<lparr>q_user_id = None, q_username = None, q_role = Some ''guest'',
      q_feedback_type = None, q_feedback_text = Some ''good''\<rparr>
     = (Reply 400 (Error ''Missing feedback fields''), empty_db)
   \<and> all_feedback False empty_db = Reply 200 (Rows [])
   \<and> map f_user_id (feedback (snd (post_feedback sample_scores 1000 False empty_db
        \<lparr>q_user_id = Some 0, q_username = Some ''bob'', q_role = Some ''guest'',
         q_feedback_type = None, q_feedback_text = Some ''good''\<rparr>))) = [None]
   \<and> map f_user_id (feedback (snd (post_feedback sample_scores 1000 False empty_db
        \<lparr>q_user_id = Some 9007199254740993, q_username = Some ''bob'', q_role = Some ''guest'',
         q_feedback_type = None, q_feedback_text = Some ''good''\<rparr>)))
       = [Some (Finite 9007199254740992)]"
  by (simp add: post_feedback_def all_feedback_def order_by_created_at_desc_def empty_db_def
      insert_feedback_def classify_def Let_def json_integer_zero json_integer_rounds)

text \<open>
  Claim C4, amended. For every record that \<^verbatim>\<open>POST /api/feedback\<close> accepts and whose
  \<^verbatim>\<open>user_id\<close>, when it has one, is not 0 and is below \<open>2 ^ 53\<close> in magnitude (an integer
  that a number holds exactly), the listing of all feedback, and the listing for its
  \<^verbatim>\<open>user_id\<close> when it has one, return a row equal to the record in \<^verbatim>\<open>user_id\<close>, \<^verbatim>\<open>role\<close>
  and \<^verbatim>\<open>feedback_text\<close>, holding the label and score of the classification of the text,
  with \<^verbatim>\<open>username\<close> and \<^verbatim>\<open>feedback_type\<close> as submitted, or the empty string (not
  \<^verbatim>\<open>NULL\<close>) when they were missing. The row's id is positive and was in no row before, and
  its \<^verbatim>\<open>created_at\<close> is the time of the insertion.
\<close>

theorem feedback_round_trip:
  assumes "post_feedback ps now flt st req = (Reply 200 Success, st')"
      and "q_user_id req \<noteq> Some 0"
      and "\<forall>uid. q_user_id req = Some uid \<longrightarrow> \<bar>uid\<bar> < 2 ^ 53"
  shows "\<exists>row rows. all_feedback False st' = Reply 200 (Rows rows) \<and> row \<in> set rows
           \<and> (\<forall>uid. q_user_id req = Some uid \<longrightarrow>
                 (\<exists>urows. user_feedback text_value False st' (show_int uid) = Reply 200 (Rows urows)
                          \<and> row \<in> set urows))
           \<and> f_user_id row = map_option (\<lambda>uid. Finite (of_int uid)) (q_user_id req)
           \<and> f_username row = Some (or_empty (q_username req))
           \<and> (q_username req = None \<longrightarrow> f_username row = Some [])
           \<and> Some (f_role row) = q_role req
           \<and> f_feedback_type row = Some (or_empty (q_feedback_type req))
           \<and> (q_feedback_type req = None \<longrightarrow> f_feedback_type row = Some [])
           \<and> Some (f_feedback_text row) = q_feedback_text req
           \<and> (f_sentiment_label row, f_sentiment_score row) = classify ps (f_feedback_text row)
           \<and> f_id row \<notin> f_id ` set (feedback st) \<and> 0 < f_id row
           \<and> f_created_at row = now"
proof -
  note s = post_feedback_success[OF assms(1)]
  let ?row = "\<lparr>f_id = next_rowid (feedback_seq st) (map f_id (feedback st)),
               f_user_id = or_null (map_option json_integer (q_user_id req)),
               f_username = Some (or_empty (q_username req)),
               f_role = or_empty (q_role req),
               f_feedback_type = Some (or_empty (q_feedback_type req)),
               f_feedback_text = or_empty (q_feedback_text req),
               f_sentiment_label = fst (classify ps (or_empty (q_feedback_text req))),
               f_sentiment_score = snd (classify ps (or_empty (q_feedback_text req))),
               f_created_at = now\<rparr>"
  from s have fb: "feedback st' = feedback st @ [?row]" by simp
  have uid: "or_null (map_option json_integer (q_user_id req))
               = map_option (\<lambda>uid. Finite (of_int uid)) (q_user_id req)"
  proof (cases "q_user_id req")
    case None
    then show ?thesis by simp
  next
    case (Some n)
    with assms(2,3) have "n \<noteq> 0" and "\<bar>n\<bar> < 2 ^ 53" by auto
    from json_integer_small[OF this(2)] this(1) Some show ?thesis by simp
  qed
  from s have role: "Some (or_empty (q_role req)) = q_role req"
    by (cases "q_role req") auto
  from s have ftext: "Some (or_empty (q_feedback_text req)) = q_feedback_text req"
    by (cases "q_feedback_text req") auto
  have 1: "all_feedback False st' = Reply 200 (Rows (order_by_created_at_desc (feedback st')))"
    by (simp add: all_feedback_def)
  have 2: "?row \<in> set (order_by_created_at_desc (feedback st'))"
    by (simp add: fb)
  have 3: "\<forall>uid. q_user_id req = Some uid \<longrightarrow>
       (\<exists>urows. user_feedback text_value False st' (show_int uid) = Reply 200 (Rows urows)
                \<and> ?row \<in> set urows)"
  proof (intro allI impI)
    fix n assume a: "q_user_id req = Some n"
    with assms(3) have "\<bar>n\<bar> < 2 ^ 53" by simp
    from sqlite_numeric_show_int[OF this, of text_value] uid a
    have "user_id_matches text_value (show_int n) ?row"
      by (simp add: user_id_matches_def)
    then show "\<exists>urows. user_feedback text_value False st' (show_int n) = Reply 200 (Rows urows)
                \<and> ?row \<in> set urows"
      by (simp add: user_feedback_def fb)
  qed
  have 4: "f_id ?row \<notin> f_id ` set (feedback st)" "0 < f_id ?row"
    using next_rowid_fresh[of "feedback_seq st" "map f_id (feedback st)"] by auto
  show ?thesis
    apply (rule exI[of _ ?row])
    apply (rule exI[of _ "order_by_created_at_desc (feedback st')"])
    using 1 2 3 4 uid role ftext by simp
qed

theorem feedback_round_trip_witness:
  "post_feedback sample_scores 300000 False sample_db
      \<lparr>q_user_id = Some 7, q_username = None, q_role = Some ''admin'',
       q_feedback_type = None, q_feedback_text = Some ''good''\<rparr>
     = (Reply 200 Success,
        sample_db\<lparr>feedback := feedback sample_db @
            [\<lparr>f_id = 5, f_user_id = Some (Finite 7), f_username = Some [], f_role = ''admin'',
              f_feedback_type = Some [], f_feedback_text = ''good'',
              f_sentiment_label = ''positive'', f_sentiment_score = 0.31,
              f_created_at = 300000\<rparr>],
          feedback_seq := 5\<rparr>)
   \<and> user_feedback sample_value False
        (sample_db\<lparr>feedback := feedback sample_db @
            [\<lparr>f_id = 5, f_user_id = Some (Finite 7), f_username = Some [], f_role = ''admin'',
              f_feedback_type = Some [], f_feedback_text = ''good'',
              f_sentiment_label = ''positive'', f_sentiment_score = 0.31,
              f_created_at = 300000\<rparr>],
          feedback_seq := 5\<rparr>) ''7''
     = Reply 200 (Rows
            [\<lparr>f_id = 5, f_user_id = Some (Finite 7), f_username = Some [], f_role = ''admin'',
              f_feedback_type = Some [], f_feedback_text = ''good'',
              f_sentiment_label = ''positive'', f_sentiment_score = 0.31,
              f_created_at = 300000\<rparr>])"
proof -
  let ?row = "\<lparr>f_id = 5, f_user_id = Some (Finite 7), f_username = Some [], f_role = ''admin'',
              f_feedback_type = Some [], f_feedback_text = ''good'',
              f_sentiment_label = ''positive'', f_sentiment_score = 0.31,
              f_created_at = 300000\<rparr>"
  let ?st = "sample_db\<lparr>feedback := feedback sample_db @ [?row], feedback_seq := 5\<rparr>"
  have h: "post_feedback sample_scores 300000 False sample_db
      \<lparr>q_user_id = Some 7, q_username = None, q_role = Some ''admin'',
       q_feedback_type = None, q_feedback_text = Some ''good''\<rparr> = (Reply 200 Success, ?st)"
    by (simp add: post_feedback_def insert_feedback_def classify_def sample_scores_def
        sample_db_def sample_row_def next_rowid_def Let_def json_integer_samples)
  from feedback_round_trip[OF h, of sample_value] obtain row urows where
    u: "user_feedback sample_value False ?st (show_int 7) = Reply 200 (Rows urows)"
      "row \<in> set urows" "f_user_id row = Some (Finite 7)"
    by auto
  have seven: "sqlite_numeric sample_value ''7'' = Some (Finite 7)"
    using sqlite_numeric_show_int[of 7 sample_value] by (simp add: show_int_samples)
  have others: "filter (user_id_matches sample_value ''7'') (feedback sample_db) = []"
    by (simp add: sample_db_def sample_row_def user_id_matches_def seven)
  have mine: "user_id_matches sample_value ''7'' ?row"
    by (simp add: user_id_matches_def seven)
  have "user_feedback sample_value False ?st ''7'' = Reply 200 (Rows [?row])"
    using others mine by (simp add: user_feedback_def order_by_created_at_desc_def)
  with h u show ?thesis by simp
qed

subsection \<open>Deletion\<close>

lemma register_feedback:
  "feedback (snd (register hash f1 f2 st req)) = feedback st"
  "feedback_seq (snd (register hash f1 f2 st req)) = feedback_seq st"
  by (auto simp: register_def Let_def insert_user_def get_user_def
      split: option.splits sum.splits if_splits)

lemma post_feedback_effect:
  "snd (post_feedback ps now flt st req) = st
   \<or> (\<exists>row. f_id row = next_rowid (feedback_seq st) (map f_id (feedback st))
           \<and> feedback (snd (post_feedback ps now flt st req)) = feedback st @ [row]
           \<and> feedback_seq (snd (post_feedback ps now flt st req)) = f_id row)"
  by (auto simp: post_feedback_def insert_feedback_def Let_def split: prod.splits)

lemma delete_feedback_effect:
  "feedback_seq (snd (delete_feedback tv flt st s)) = feedback_seq st"
  "set (feedback (snd (delete_feedback tv flt st s))) \<subseteq> set (feedback st)"
  by (auto simp: delete_feedback_def run_delete_def)



text \<open>
  The sequence covers the rows in every state that requests reach from the empty database.
\<close>

lemma apply_event_seq_covers:
  assumes c: "seq_covers st"
  shows "seq_covers (apply_event st ev)"
proof (cases ev)
  case (Register hash f1 f2 req)
  with c show ?thesis by (simp add: register_feedback seq_covers_def)
next
  case (Login compare flt req)
  with c show ?thesis by (simp add: login_state)
next
  case (PostFeedback ps now flt req)
  from post_feedback_effect[of ps now flt st req] show ?thesis
  proof
    assume "snd (post_feedback ps now flt st req) = st"
    with c PostFeedback show ?thesis by simp
  next
    assume "\<exists>row. f_id row = next_rowid (feedback_seq st) (map f_id (feedback st))
           \<and> feedback (snd (post_feedback ps now flt st req)) = feedback st @ [row]
           \<and> feedback_seq (snd (post_feedback ps now flt st req)) = f_id row"
    then obtain row where r: "f_id row = next_rowid (feedback_seq st) (map f_id (feedback st))"
      "feedback (snd (post_feedback ps now flt st req)) = feedback st @ [row]"
      "feedback_seq (snd (post_feedback ps now flt st req)) = f_id row" by blast
    have "feedback_seq st < f_id row"
      using next_rowid_fresh(3)[of "feedback_seq st" "map f_id (feedback st)"] r(1) by simp
    with c have "seq_covers (snd (post_feedback ps now flt st req))"
      by (auto simp: seq_covers_def r list_all_iff)
    with PostFeedback show ?thesis by simp
  qed
next
  case (DeleteFeedback tv flt s)
  with c delete_feedback_effect[of tv flt st s] show ?thesis
    by (auto simp: seq_covers_def list_all_iff)
qed

lemma seq_covers_reachable: "seq_covers (run empty_db evs)"
proof -
  have "seq_covers st \<Longrightarrow> seq_covers (foldl apply_event st evs)" for st
    by (induction evs arbitrary: st) (simp_all add: apply_event_seq_covers)
  moreover have "seq_covers empty_db" by (simp add: seq_covers_def empty_db_def)
  ultimately show ?thesis by (simp add: run_def)
qed








subsection \<open>Analytics\<close>

text \<open>
  The runs of a list: they concatenate to the list, none is empty, each holds rows of one
  key, and over a list sorted on the key the keys of the runs increase strictly.
\<close>

lemma concat_group_sorted: "concat (map snd (group_sorted key rs)) = rs"
  by (induction rs) (auto split: list.splits)

lemma group_sorted_runs:
  "list_all (\<lambda>(k, g). g \<noteq> [] \<and> list_all (\<lambda>r. key r = k) g) (group_sorted key rs)"
  by (induction rs) (auto split: list.splits)

lemma group_sorted_groups:
  "(k, g) \<in> set (group_sorted key rs) \<Longrightarrow> g \<noteq> [] \<and> (\<forall>r\<in>set g. key r = k)"
  using group_sorted_runs[of key rs] by (auto simp: list_all_iff)

lemma group_sorted_head:
  "group_sorted key (r # rs) = (k, g) # gs \<Longrightarrow> k = key r"
  by (auto split: list.splits if_splits)

lemma group_sorted_keys_strict:
  "sorted (map key rs) \<Longrightarrow> sorted_wrt (<) (map fst (group_sorted key rs))"
proof (induction rs)
  case Nil
  then show ?case by simp
next
  case (Cons r rs)
  then have IH: "sorted_wrt (<) (map fst (group_sorted key rs))" by simp
  show ?case
  proof (cases "group_sorted key rs")
    case Nil
    then show ?thesis by simp
  next
    case (Cons kg gs)
    obtain k g where kg: "kg = (k, g)" by (cases kg)
    from Cons kg obtain r' rs' where rs: "rs = r' # rs'" by (cases rs) auto
    with Cons kg have k: "k = key r'" using group_sorted_head by metis
    with Cons.prems rs have le: "key r \<le> k" by simp
    show ?thesis
    proof (cases "key r = k")
      case True
      with Cons kg IH show ?thesis by simp
    next
      case False
      with le have "key r < k" by simp
      with Cons kg IH show ?thesis by (auto simp: False)
    qed
  qed
qed

text \<open>With distinct keys, the run of a key is all the rows of that key.\<close>

lemma filter_concat_groups:
  assumes "distinct (map fst gs)" "\<forall>(k', g') \<in> set gs. \<forall>r\<in>set g'. key r = k'" "(k, g) \<in> set gs"
  shows "filter (\<lambda>r. key r = k) (concat (map snd gs)) = g"
  using assms
proof (induction gs)
  case Nil
  then show ?case by simp
next
  case (Cons a gs)
  obtain k' g' where a: "a = (k', g')" by (cases a)
  show ?case
  proof (cases "(k, g) = a")
    case True
    then have eq: "k' = k" "g' = g" using a by auto
    from Cons.prems(1) a eq have notin: "k \<notin> fst ` set gs" by auto
    have own: "filter (\<lambda>r. key r = k) g = g"
      using Cons.prems(2) a eq by (auto simp: filter_id_conv)
    have "filter (\<lambda>r. key r = k) (concat (map snd gs)) = []"
      using Cons.prems(2) notin by (fastforce simp: filter_empty_conv)
    with own a eq show ?thesis by simp
  next
    case False
    with Cons.prems(3) have mem: "(k, g) \<in> set gs" by auto
    with Cons.prems(1) a have "k' \<noteq> k" by (auto simp: image_iff)
    then have "filter (\<lambda>r. key r = k) g' = []"
      using Cons.prems(2) a by (auto simp: filter_empty_conv)
    moreover have "filter (\<lambda>r. key r = k) (concat (map snd gs)) = g"
      using Cons.IH Cons.prems mem by auto
    ultimately show ?thesis using a by simp
  qed
qed

text \<open>
  \<^verbatim>\<open>GROUP BY\<close>: one group for every key that occurs, in increasing order of the keys, and
  the group of a key holds exactly the rows of that key.
\<close>

lemma group_by_keys_strict: "sorted_wrt (<) (map fst (group_by key rows))"
  unfolding group_by_def by (rule group_sorted_keys_strict) simp

lemma group_by_group:
  assumes "(k, g) \<in> set (group_by key rows)"
  shows "g = filter (\<lambda>r. key r = k) rows" "g \<noteq> []"
proof -
  let ?gs = "group_sorted key (sort_key key rows)"
  from assms have mem: "(k, g) \<in> set ?gs" by (simp add: group_by_def)
  have d: "distinct (map fst ?gs)"
    using group_by_keys_strict[of key rows] by (simp add: strict_sorted_iff group_by_def)
  have own: "\<forall>(k', g') \<in> set ?gs. \<forall>r\<in>set g'. key r = k'"
    using group_sorted_groups by fastforce
  have "filter (\<lambda>r. key r = k) (concat (map snd ?gs)) = g"
    using d own mem by (rule filter_concat_groups)
  then show "g = filter (\<lambda>r. key r = k) rows"
    by (simp add: concat_group_sorted sort_key_stable)
  show "g \<noteq> []" using mem group_sorted_groups by fastforce
qed

lemma group_by_keys: "fst ` set (group_by key rows) = key ` set rows"
proof
  show "fst ` set (group_by key rows) \<subseteq> key ` set rows"
  proof
    fix k assume "k \<in> fst ` set (group_by key rows)"
    then obtain g where kg: "(k, g) \<in> set (group_by key rows)" by auto
    from group_by_group[OF kg] obtain r where "r \<in> set rows" "key r = k"
      by (metis (mono_tags, lifting) filter_empty_conv)
    then show "k \<in> key ` set rows" by auto
  qed
next
  show "key ` set rows \<subseteq> fst ` set (group_by key rows)"
  proof
    fix k assume "k \<in> key ` set rows"
    then obtain r where r: "r \<in> set rows" "key r = k" by auto
    then have "r \<in> set (concat (map snd (group_by key rows)))"
      by (simp add: group_by_def concat_group_sorted)
    then obtain k' g where kg: "(k', g) \<in> set (group_by key rows)" "r \<in> set g" by auto
    from group_by_group(1)[OF kg(1)] kg(2) r have "k' = k" by auto
    with kg show "k \<in> fst ` set (group_by key rows)" by force
  qed
qed

lemma group_by_total: "sum_list (map (\<lambda>(k, g). length g) (group_by key rows)) = length rows"
proof -
  have "sum_list (map (\<lambda>(k, g). length g) gs) = length (concat (map snd gs))" for gs :: "('a \<times> 'b list) list"
    by (induction gs) auto
  then show ?thesis by (simp add: group_by_def concat_group_sorted)
qed

text \<open>
  Claim C5. For every state of the table, the store at work, the sentiment summary has one
  entry for every label that occurs in the table and no other entry, every count is the
  number of rows with that label and is not zero, and the counts add up to the number of
  rows.
\<close>

theorem sentiment_summary_counts:
  "\<exists>cs. sentiment_summary False st = Reply 200 (Counts cs)
      \<and> distinct (map fst cs)
      \<and> fst ` set cs = f_sentiment_label ` set (feedback st)
      \<and> (\<forall>(lab, c) \<in> set cs.
            0 < c \<and> c = length (filter (\<lambda>r. f_sentiment_label r = lab) (feedback st)))
      \<and> sum_list (map snd cs) = length (feedback st)"
proof -
  let ?gs = "group_by f_sentiment_label (feedback st)"
  let ?cs = "sentiment_summary_rows (feedback st)"
  have fsts: "map fst ?cs = map fst ?gs"
    by (simp add: sentiment_summary_rows_def case_prod_unfold comp_def)
  have 1: "distinct (map fst ?cs)"
    using group_by_keys_strict[of f_sentiment_label "feedback st"]
    by (simp add: fsts strict_sorted_iff)
  have 2: "fst ` set ?cs = f_sentiment_label ` set (feedback st)"
    using group_by_keys[of f_sentiment_label "feedback st"] fsts
    by (metis list.set_map)
  have 3: "\<forall>(lab, c) \<in> set ?cs.
            0 < c \<and> c = length (filter (\<lambda>r. f_sentiment_label r = lab) (feedback st))"
  proof (clarify)
    fix lab c assume "(lab, c) \<in> set ?cs"
    then obtain g where g: "(lab, g) \<in> set ?gs" "c = length g"
      by (auto simp: sentiment_summary_rows_def)
    from group_by_group[OF g(1)] g(2)
    show "0 < c \<and> c = length (filter (\<lambda>r. f_sentiment_label r = lab) (feedback st))"
      by simp
  qed
  have 4: "sum_list (map snd ?cs) = length (feedback st)"
    using group_by_total[of f_sentiment_label "feedback st"]
    by (simp add: sentiment_summary_rows_def case_prod_unfold comp_def)
  have "sentiment_summary False st = Reply 200 (Counts ?cs)"
    by (simp add: sentiment_summary_def)
  with 1 2 3 4 show ?thesis by blast
qed

theorem sentiment_summary_counts_witness:
  "sentiment_summary False sample_db
     = Reply 200 (Counts [(''negative'', 1), (''neutral'', 1), (''positive'', 2)])"
proof -
  have "sentiment_summary_rows (feedback sample_db)
          = [(''negative'', 1), (''neutral'', 1), (''positive'', 2)]"
    by (simp add: sentiment_summary_rows_def group_by_def sample_db_def sample_row_def)
  with sentiment_summary_counts[of sample_db] show ?thesis
    by (auto simp: sentiment_summary_def)
qed

text \<open>
  Claim C6. For every state of the table, the store at work, the averages over time have
  one entry for every day on which a row was created and no other entry, the days increase
  strictly along the list, and the average of a day is the sum of the scores of the rows
  created that day divided by their number.
\<close>

theorem avg_sentiment_by_date:
  "\<exists>avs. avg_sentiment_over_time False st = Reply 200 (Averages avs)
      \<and> sorted_wrt (<) (map fst avs)
      \<and> fst ` set avs = (\<lambda>r. date_of (f_created_at r)) ` set (feedback st)
      \<and> (\<forall>(d, a) \<in> set avs.
            filter (\<lambda>r. date_of (f_created_at r) = d) (feedback st) \<noteq> []
            \<and> a = sum_list (map f_sentiment_score
                       (filter (\<lambda>r. date_of (f_created_at r) = d) (feedback st)))
                  / real (length (filter (\<lambda>r. date_of (f_created_at r) = d) (feedback st))))"
proof -
  let ?key = "\<lambda>r. date_of (f_created_at r)"
  let ?gs = "group_by ?key (feedback st)"
  let ?ms = "map (\<lambda>(d, g). (d, avg (map f_sentiment_score g))) ?gs"
  let ?avs = "avg_sentiment_rows (feedback st)"
  have fsts: "map fst ?ms = map fst ?gs"
    by (simp add: case_prod_unfold comp_def)
  have strict: "sorted_wrt (<) (map fst ?ms)"
    using group_by_keys_strict[of ?key "feedback st"] by (simp only: fsts)
  then have "sorted (map fst ?ms)" by (simp add: strict_sorted_iff)
  then have avs: "?avs = ?ms"
    unfolding avg_sentiment_rows_def by (rule sort_key_id_if_sorted)
  have 1: "sorted_wrt (<) (map fst ?avs)"
    using strict by (simp only: avs)
  have 2: "fst ` set ?avs = ?key ` set (feedback st)"
    using group_by_keys[of ?key "feedback st"] fsts avs
    by (metis list.set_map)
  have 3: "\<forall>(d, a) \<in> set ?avs.
            filter (\<lambda>r. ?key r = d) (feedback st) \<noteq> []
            \<and> a = sum_list (map f_sentiment_score (filter (\<lambda>r. ?key r = d) (feedback st)))
                  / real (length (filter (\<lambda>r. ?key r = d) (feedback st)))"
  proof (clarify)
    fix d a assume "(d, a) \<in> set ?avs"
    then obtain g where g: "(d, g) \<in> set ?gs" "a = avg (map f_sentiment_score g)"
      by (auto simp: avs)
    from group_by_group[OF g(1)] g(2)
    show "filter (\<lambda>r. ?key r = d) (feedback st) \<noteq> []
            \<and> a = sum_list (map f_sentiment_score (filter (\<lambda>r. ?key r = d) (feedback st)))
                  / real (length (filter (\<lambda>r. ?key r = d) (feedback st)))"
      by (simp add: avg_def)
  qed
  have "avg_sentiment_over_time False st = Reply 200 (Averages ?avs)"
    by (simp add: avg_sentiment_over_time_def)
  with 1 2 3 show ?thesis by blast
qed

theorem avg_sentiment_by_date_witness:
  "avg_sentiment_over_time False sample_db
     = Reply 200 (Averages [(1, 0.2 / 3), (2, 0.8)])"
proof -
  have "avg_sentiment_rows (feedback sample_db) = [(1, 0.2 / 3), (2, 0.8)]"
    by (simp add: avg_sentiment_rows_def group_by_def sample_db_def sample_row_def
        date_of_def avg_def)
  with avg_sentiment_by_date[of sample_db] show ?thesis
    by (auto simp: avg_sentiment_over_time_def)
qed

end
